theory Spec2Isabelle
  imports Complex_Main "HOL-Library.AList"
begin

section \<open>Data model of \<open>attendance_reader.py\<close>\<close>

text \<open>
  A Python \<open>datetime\<close> is modelled as the integer number of microseconds since a fixed
  epoch (its resolution), a \<open>timedelta\<close> as an integer number of microseconds; all
  datetimes are taken to be comparable with each other.  Every string field is a
  \<open>string\<close>.  A float is the real number it stands for; the operations on floats round
  their result to binary64 (section on the qualification).

  \<open>Participant\<close> is declared before \<open>InMeetingActivity\<close>, so that the plain field names
  \<open>email\<close> and \<open>role\<close> are those of the activity; the fields of the participant are
  written \<open>Participant.email\<close> and \<open>Participant.role\<close>.
\<close>

type_synonym datetime = int
type_synonym timedelta = int

record Participant =
  email :: string
  first_join :: datetime
  last_leave :: datetime
  in_meeting_duration :: string
  participant_id :: string
  role :: string

record InMeetingActivity =
  name :: string
  email :: string
  join_time :: datetime
  leave_time :: datetime
  duration :: string
  role :: string

datatype SectionHeading =
  START_TIME | PARTICIPANTS | MEETING_ACTIVITIES | VIDEO_AND_AUDIO_CONSENT

record AttendanceConfig =
  date_time_format :: string
  section_headings_mapping :: "string \<rightharpoonup> SectionHeading"

text \<open>
  The exceptions the code can raise: \<open>IndexError\<close> (a field that is not there), \<open>KeyError\<close>
  (a dictionary key that is not there), \<open>ValueError\<close> (\<open>strptime\<close> on a text that does not
  match the format, or reading a closed file) and \<open>TypeError\<close> (subscripting an object that
  has no subscript).
\<close>

datatype py_error = IndexError | KeyError | ValueError | TypeError

definition bind_result :: "py_error + 'a \<Rightarrow> ('a \<Rightarrow> py_error + 'b) \<Rightarrow> py_error + 'b" where
  "bind_result r f = (case r of Inl e \<Rightarrow> Inl e | Inr v \<Rightarrow> f v)"

text \<open>\<open>xs[i]\<close> for an index that is a natural number.\<close>

definition list_getitem :: "'a list \<Rightarrow> nat \<Rightarrow> py_error + 'a" where
  "list_getitem xs i = (if i < length xs then Inr (xs ! i) else Inl IndexError)"

text \<open>\<open>d[k]\<close> for a dictionary from section headings to row indexes.\<close>

definition dict_getitem :: "('k \<rightharpoonup> 'v) \<Rightarrow> 'k \<Rightarrow> py_error + 'v" where
  "dict_getitem d k = (case d k of None \<Rightarrow> Inl KeyError | Some v \<Rightarrow> Inr v)"

text \<open>
  A \<open>csv.reader\<close> object: the rows that the file under it holds, each a sequence of text
  fields, and whether that file is closed.  Opening the file and splitting its lines into
  fields are not modelled: the file is taken to exist and to open.
\<close>

record csv_reader_object =
  input_closed :: bool
  input_rows :: "string list list"

text \<open>
  \<open>_init_csv_reader\<close> builds the reader inside \<open>with open(...) as file\<close> and reads nothing
  there: when the block is left the file is closed.
\<close>

definition init_csv_reader :: "string list list \<Rightarrow> csv_reader_object" where
  "init_csv_reader rows = \<lparr>input_closed = True, input_rows = rows\<rparr>"

text \<open>
  Iterating the reader: the first \<open>next\<close> reads the file, and a closed file raises
  \<open>ValueError\<close>; an open file yields its rows.
\<close>

definition csv_reader_iter :: "csv_reader_object \<Rightarrow> py_error + string list list" where
  "csv_reader_iter r = (if input_closed r then Inl ValueError else Inr (input_rows r))"

text \<open>\<open>reader[index]\<close>: a \<open>csv.reader\<close> has no subscript, whatever the index.\<close>

definition csv_reader_getitem :: "csv_reader_object \<Rightarrow> nat \<Rightarrow> py_error + string list" where
  "csv_reader_getitem r index = Inl TypeError"

text \<open>
  The reader of the attendance holds its configuration, the \<open>csv.reader\<close> and the section
  indexes found by the scan.
\<close>

record AttendanceReader =
  ATTENDANCE_CONFIG :: AttendanceConfig
  csv_reader :: csv_reader_object
  section_indexes :: "SectionHeading \<rightharpoonup> nat"

section \<open>The section scan\<close>

text \<open>
  The body of the loop of \<open>_extract_section_indexes\<close>: \<open>record[0]\<close> is read first, then
  looked up in the heading mapping.
\<close>

definition section_index_step ::
  "(string \<rightharpoonup> SectionHeading) \<Rightarrow> nat \<Rightarrow> string list \<Rightarrow> (SectionHeading \<rightharpoonup> nat)
    \<Rightarrow> py_error + (SectionHeading \<rightharpoonup> nat)" where
  "section_index_step mapping index row idxs =
     bind_result (list_getitem row 0) (\<lambda>section_name.
       case mapping section_name of
         None \<Rightarrow> Inr idxs
       | Some section_id \<Rightarrow> Inr (idxs(section_id \<mapsto> index + 2)))"

text \<open>The loop over the rows that \<open>enumerate\<close> yields, from a running index.\<close>

fun section_index_loop ::
  "(string \<rightharpoonup> SectionHeading) \<Rightarrow> nat \<Rightarrow> string list list \<Rightarrow> (SectionHeading \<rightharpoonup> nat)
    \<Rightarrow> py_error + (SectionHeading \<rightharpoonup> nat)" where
  "section_index_loop mapping index [] idxs = Inr idxs"
| "section_index_loop mapping index (row # rest) idxs =
     (case section_index_step mapping index row idxs of
        Inl e \<Rightarrow> Inl e
      | Inr idxs' \<Rightarrow> section_index_loop mapping (Suc index) rest idxs')"

text \<open>
  The loop of \<open>_extract_section_indexes\<close> on the rows that the reader yields: the index
  starts at 0 and the dictionary of the indexes is empty.
\<close>

definition extract_section_indexes ::
  "(string \<rightharpoonup> SectionHeading) \<Rightarrow> string list list \<Rightarrow> py_error + (SectionHeading \<rightharpoonup> nat)" where
  "extract_section_indexes mapping rows = section_index_loop mapping 0 rows Map.empty"

text \<open>
  The constructor, for a file that holds \<open>rows\<close>: it stores the configuration, builds the
  \<open>csv.reader\<close>, then scans what the reader yields.
\<close>

definition AttendanceReader_init ::
  "string list list \<Rightarrow> AttendanceConfig \<Rightarrow> py_error + AttendanceReader" where
  "AttendanceReader_init rows attendance_config =
     (let reader = init_csv_reader rows
      in bind_result (csv_reader_iter reader) (\<lambda>yielded.
         bind_result (extract_section_indexes (section_headings_mapping attendance_config) yielded)
           (\<lambda>idxs. Inr \<lparr>ATTENDANCE_CONFIG = attendance_config, csv_reader = reader,
                        section_indexes = idxs\<rparr>)))"

section \<open>The accessors\<close>

text \<open>
  \<open>datetime.strptime\<close> is a library function: it is a parameter \<open>strptime\<close> of the model,
  taking the text and the format, with \<open>None\<close> where the library raises \<open>ValueError\<close>.
\<close>

definition convert_string_to_datetime ::
  "(string \<Rightarrow> string \<Rightarrow> datetime option) \<Rightarrow> AttendanceReader \<Rightarrow> string
    \<Rightarrow> py_error + datetime" where
  "convert_string_to_datetime strptime self date_time_str =
     (case strptime date_time_str (date_time_format (ATTENDANCE_CONFIG self)) of
        None \<Rightarrow> Inl ValueError
      | Some t \<Rightarrow> Inr t)"

definition extract_start_time ::
  "(string \<Rightarrow> string \<Rightarrow> datetime option) \<Rightarrow> AttendanceReader \<Rightarrow> py_error + datetime" where
  "extract_start_time strptime self =
     bind_result (dict_getitem (section_indexes self) START_TIME) (\<lambda>start_time_index.
     bind_result (csv_reader_getitem (csv_reader self) start_time_index) (\<lambda>row.
     bind_result (list_getitem row 1) (\<lambda>start_time_str.
       convert_string_to_datetime strptime self start_time_str)))"

text \<open>
  \<open>range(start_index, end_index)\<close>: the start is a stored index, a natural number; the end is
  a stored index minus 3, an integer that can be negative.  The range is empty when the end
  is at or before the start.
\<close>

definition py_range :: "nat \<Rightarrow> int \<Rightarrow> nat list" where
  "py_range start_index end_index = [start_index ..< nat end_index]"

text \<open>The body of the loop of \<open>_extract_participants\<close>, in the order the code evaluates it.\<close>

definition decode_participant ::
  "(string \<Rightarrow> string \<Rightarrow> datetime option) \<Rightarrow> AttendanceReader \<Rightarrow> string list
    \<Rightarrow> py_error + Participant" where
  "decode_participant strptime self row =
     bind_result (list_getitem row 1) (\<lambda>f1.
     bind_result (convert_string_to_datetime strptime self f1) (\<lambda>join_time'.
     bind_result (list_getitem row 2) (\<lambda>f2.
     bind_result (convert_string_to_datetime strptime self f2) (\<lambda>leave_time'.
     bind_result (list_getitem row 3) (\<lambda>in_meeting_duration'.
     bind_result (list_getitem row 4) (\<lambda>email'.
     bind_result (list_getitem row 5) (\<lambda>participant_id'.
     bind_result (list_getitem row 6) (\<lambda>role'.
       Inr \<lparr>Participant.email = email', first_join = join_time', last_leave = leave_time',
            in_meeting_duration = in_meeting_duration', participant_id = participant_id',
            Participant.role = role'\<rparr>))))))))"

fun extract_participants_loop ::
  "(string \<Rightarrow> string \<Rightarrow> datetime option) \<Rightarrow> AttendanceReader \<Rightarrow> nat list \<Rightarrow> Participant list
    \<Rightarrow> py_error + Participant list" where
  "extract_participants_loop strptime self [] participants = Inr participants"
| "extract_participants_loop strptime self (index # rest) participants =
     (case csv_reader_getitem (csv_reader self) index of
        Inl e \<Rightarrow> Inl e
      | Inr row \<Rightarrow>
          (case decode_participant strptime self row of
             Inl e \<Rightarrow> Inl e
           | Inr participant \<Rightarrow>
               extract_participants_loop strptime self rest (participants @ [participant])))"

definition extract_participants ::
  "(string \<Rightarrow> string \<Rightarrow> datetime option) \<Rightarrow> AttendanceReader \<Rightarrow> py_error + Participant list" where
  "extract_participants strptime self =
     bind_result (dict_getitem (section_indexes self) PARTICIPANTS) (\<lambda>start_index.
     bind_result (dict_getitem (section_indexes self) MEETING_ACTIVITIES) (\<lambda>i.
       extract_participants_loop strptime self (py_range start_index (int i - 3)) []))"

text \<open>The body of the loop of \<open>_extract_in_meeting_activities\<close>.\<close>

definition decode_in_meeting_activity ::
  "(string \<Rightarrow> string \<Rightarrow> datetime option) \<Rightarrow> AttendanceReader \<Rightarrow> string list
    \<Rightarrow> py_error + InMeetingActivity" where
  "decode_in_meeting_activity strptime self row =
     bind_result (list_getitem row 0) (\<lambda>name'.
     bind_result (list_getitem row 1) (\<lambda>f1.
     bind_result (convert_string_to_datetime strptime self f1) (\<lambda>join_time'.
     bind_result (list_getitem row 2) (\<lambda>f2.
     bind_result (convert_string_to_datetime strptime self f2) (\<lambda>leave_time'.
     bind_result (list_getitem row 3) (\<lambda>duration'.
     bind_result (list_getitem row 4) (\<lambda>email'.
     bind_result (list_getitem row 5) (\<lambda>role'.
       Inr \<lparr>name = name', email = email', join_time = join_time', leave_time = leave_time',
            duration = duration', role = role'\<rparr>))))))))"

fun extract_in_meeting_activities_loop ::
  "(string \<Rightarrow> string \<Rightarrow> datetime option) \<Rightarrow> AttendanceReader \<Rightarrow> nat list
    \<Rightarrow> InMeetingActivity list \<Rightarrow> py_error + InMeetingActivity list" where
  "extract_in_meeting_activities_loop strptime self [] meeting_activities =
     Inr meeting_activities"
| "extract_in_meeting_activities_loop strptime self (index # rest) meeting_activities =
     (case csv_reader_getitem (csv_reader self) index of
        Inl e \<Rightarrow> Inl e
      | Inr row \<Rightarrow>
          (case decode_in_meeting_activity strptime self row of
             Inl e \<Rightarrow> Inl e
           | Inr activity \<Rightarrow>
               extract_in_meeting_activities_loop strptime self rest
                 (meeting_activities @ [activity])))"

definition extract_in_meeting_activities ::
  "(string \<Rightarrow> string \<Rightarrow> datetime option) \<Rightarrow> AttendanceReader
    \<Rightarrow> py_error + InMeetingActivity list" where
  "extract_in_meeting_activities strptime self =
     bind_result (dict_getitem (section_indexes self) MEETING_ACTIVITIES) (\<lambda>start_index.
     bind_result (dict_getitem (section_indexes self) VIDEO_AND_AUDIO_CONSENT) (\<lambda>i.
       extract_in_meeting_activities_loop strptime self (py_range start_index (int i - 3)) []))"

section \<open>The qualification of \<open>attendance_tracker.py\<close>\<close>

text \<open>
  Rounding a real number to binary64, to the nearest value with ties to the even
  significand: the number is scaled by a power of two so that its magnitude lies between
  \<open>2^52\<close> and \<open>2^53\<close> (or by \<open>2^-1074\<close> when it is smaller than the normal numbers), the scaled
  number is rounded to an integer, and the integer is scaled back.  Overflow to infinity,
  which needs a magnitude of \<open>2^1024\<close>, is not modelled.
\<close>

definition round_half_even :: "real \<Rightarrow> int" where
  "round_half_even q =
     (let n = \<lfloor>q\<rfloor>; d = q - real_of_int n
      in if d < 1 / 2 then n else if 1 / 2 < d then n + 1 else if even n then n else n + 1)"

definition pow2 :: "int \<Rightarrow> real" where
  "pow2 k = 2 powr real_of_int k"

definition binary64_exponent :: "real \<Rightarrow> int" where
  "binary64_exponent x = max (\<lfloor>log 2 \<bar>x\<bar>\<rfloor> - 52) (- 1074)"

definition round_binary64 :: "real \<Rightarrow> real" where
  "round_binary64 x =
     (if x = 0 then 0
      else real_of_int (round_half_even (x / pow2 (binary64_exponent x)))
           * pow2 (binary64_exponent x))"

text \<open>
  \<open>timedelta.total_seconds()\<close> is the float nearest to the microseconds over \<open>10^6\<close>.
  \<open>x // 60\<close> on a float is the floor of the quotient, again a float: the divisor is the
  literal 60, and the floor is exact for every difference of two datetimes (below \<open>2^53\<close>
  minutes).  The product of two floats is the rounded product.  \<open>int(x)\<close> truncates a float
  towards zero.
\<close>

definition total_seconds :: "timedelta \<Rightarrow> real" where
  "total_seconds td = round_binary64 (real_of_int td / 1000000)"

definition py_floordiv :: "real \<Rightarrow> real \<Rightarrow> real" where
  "py_floordiv a b = real_of_int \<lfloor>a / b\<rfloor>"

definition float_mul :: "real \<Rightarrow> real \<Rightarrow> real" where
  "float_mul a b = round_binary64 (a * b)"

definition py_int :: "real \<Rightarrow> int" where
  "py_int x = (if 0 \<le> x then \<lfloor>x\<rfloor> else \<lceil>x\<rceil>)"

definition minimum_minutes_threshold :: "datetime \<Rightarrow> datetime \<Rightarrow> real \<Rightarrow> int" where
  "minimum_minutes_threshold session_start_time session_end_time minimum_attendance_percentage =
     py_int (float_mul (py_floordiv (total_seconds (session_end_time - session_start_time)) 60)
                       minimum_attendance_percentage)"

text \<open>
  The amount added to the participant's total for one activity.  \<open>start_time\<close> is either the
  integer 0 (here \<open>None\<close>: a \<open>datetime\<close> never equals 0) or a \<open>datetime\<close>.
\<close>

definition activity_minutes :: "datetime \<Rightarrow> datetime \<Rightarrow> InMeetingActivity \<Rightarrow> int" where
  "activity_minutes session_start_time session_end_time activity =
     (let start_time =
            (if join_time activity \<ge> session_end_time then None
             else Some (max session_start_time (leave_time activity)));
          end_time = min session_end_time (join_time activity)
      in case start_time of
           None \<Rightarrow> 0
         | Some st \<Rightarrow> py_int (py_floordiv (total_seconds (end_time - st)) 60))"

text \<open>
  \<open>participant_time_mapping\<close> is a dictionary that is later iterated: it keeps its keys in
  the order of their insertion, so it is an association list with distinct keys, and
  \<open>d[k] = v\<close> is \<open>AList.update k v d\<close>.
\<close>

definition alist_getitem :: "('k \<times> 'v) list \<Rightarrow> 'k \<Rightarrow> py_error + 'v" where
  "alist_getitem d k = (case map_of d k of None \<Rightarrow> Inl KeyError | Some v \<Rightarrow> Inr v)"

definition accumulate_activity ::
  "datetime \<Rightarrow> datetime \<Rightarrow> InMeetingActivity \<Rightarrow> (string \<times> int) list
    \<Rightarrow> py_error + (string \<times> int) list" where
  "accumulate_activity session_start_time session_end_time activity participant_time_mapping =
     (let m = (if map_of participant_time_mapping (email activity) = None
               then AList.update (email activity) 0 participant_time_mapping
               else participant_time_mapping)
      in bind_result (alist_getitem m (email activity)) (\<lambda>total_time.
           Inr (AList.update (email activity)
                 (total_time + activity_minutes session_start_time session_end_time activity) m)))"

fun accumulate_activities ::
  "datetime \<Rightarrow> datetime \<Rightarrow> InMeetingActivity list \<Rightarrow> (string \<times> int) list
    \<Rightarrow> py_error + (string \<times> int) list" where
  "accumulate_activities session_start_time session_end_time [] m = Inr m"
| "accumulate_activities session_start_time session_end_time (activity # rest) m =
     (case accumulate_activity session_start_time session_end_time activity m of
        Inl e \<Rightarrow> Inl e
      | Inr m' \<Rightarrow> accumulate_activities session_start_time session_end_time rest m')"

text \<open>
  \<open>get_qualified_participants\<close>, as a function of the activities that
  \<open>self._attendance_reader.in_meeting_activities\<close> returns: the threshold, the accumulation,
  and the selection in the order of the dictionary.
\<close>

definition get_qualified_participants ::
  "InMeetingActivity list \<Rightarrow> datetime \<Rightarrow> datetime \<Rightarrow> real \<Rightarrow> py_error + string list" where
  "get_qualified_participants activities session_start_time session_end_time
      minimum_attendance_percentage =
     (let threshold = minimum_minutes_threshold session_start_time session_end_time
                        minimum_attendance_percentage
      in bind_result (accumulate_activities session_start_time session_end_time activities [])
           (\<lambda>participant_time_mapping.
              Inr (map fst (filter (\<lambda>(email', total_time). total_time \<ge> threshold)
                                   participant_time_mapping))))"

text \<open>The configuration that \<open>_init_attendance_reader\<close> of the tracker builds.\<close>

definition ATTENDANCE_CONFIG_of_tracker :: AttendanceConfig where
  "ATTENDANCE_CONFIG_of_tracker =
     \<lparr>date_time_format = ''%m/%d/%y, %I:%M:%S %p'',
      section_headings_mapping =
        [''Start time'' \<mapsto> START_TIME,
         ''2. Participants'' \<mapsto> PARTICIPANTS,
         ''3. In-Meeting Activities'' \<mapsto> MEETING_ACTIVITIES,
         ''4. Explicit Audio and Video Consent Information'' \<mapsto> VIDEO_AND_AUDIO_CONSENT]\<rparr>"

text \<open>The method on the tracker: an error of the reader's accessor propagates.\<close>

definition AttendanceTracker_get_qualified_participants ::
  "(string \<Rightarrow> string \<Rightarrow> datetime option) \<Rightarrow> AttendanceReader \<Rightarrow> datetime \<Rightarrow> datetime \<Rightarrow> real
    \<Rightarrow> py_error + string list" where
  "AttendanceTracker_get_qualified_participants strptime attendance_reader session_start_time
      session_end_time minimum_attendance_percentage =
     bind_result (extract_in_meeting_activities strptime attendance_reader) (\<lambda>activities.
       get_qualified_participants activities session_start_time session_end_time
         minimum_attendance_percentage)"

text \<open>
  The sum of the minutes of the activities of one email: the value that
  \<open>participant_time_mapping\<close> holds for it when the loop ends (lemma
  \<open>accumulate_activities_values\<close>).
\<close>

definition total_time_of ::
  "datetime \<Rightarrow> datetime \<Rightarrow> InMeetingActivity list \<Rightarrow> string \<Rightarrow> int" where
  "total_time_of session_start_time session_end_time activities k =
     sum_list (map (activity_minutes session_start_time session_end_time)
                   (filter (\<lambda>a. InMeetingActivity.email a = k) activities))"

section \<open>Rounding to binary64\<close>

lemma round_half_even_bounds: "\<lfloor>q\<rfloor> \<le> round_half_even q \<and> round_half_even q \<le> \<lfloor>q\<rfloor> + 1"
  by (simp add: round_half_even_def Let_def)

lemma round_half_even_of_int: "round_half_even (real_of_int k) = k"
  by (simp add: round_half_even_def)

lemma round_half_even_mono:
  assumes "q1 \<le> q2"
  shows "round_half_even q1 \<le> round_half_even q2"
proof (cases "\<lfloor>q1\<rfloor> = \<lfloor>q2\<rfloor>")
  case True
  with assms have "q1 - real_of_int \<lfloor>q1\<rfloor> \<le> q2 - real_of_int \<lfloor>q2\<rfloor>" by simp
  with True show ?thesis by (auto simp add: round_half_even_def Let_def)
next
  case False
  with assms have "\<lfloor>q1\<rfloor> < \<lfloor>q2\<rfloor>" using floor_mono [OF assms] by linarith
  then have "\<lfloor>q1\<rfloor> + 1 \<le> \<lfloor>q2\<rfloor>" by simp
  with round_half_even_bounds [of q1] round_half_even_bounds [of q2] show ?thesis by linarith
qed

lemma round_half_even_le: "q \<le> real_of_int k \<Longrightarrow> round_half_even q \<le> k"
  using round_half_even_mono [of q "real_of_int k"] by (simp add: round_half_even_of_int)

lemma round_half_even_ge: "real_of_int k \<le> q \<Longrightarrow> k \<le> round_half_even q"
  using round_half_even_mono [of "real_of_int k" q] by (simp add: round_half_even_of_int)

lemma pow2_pos: "0 < pow2 k"
  by (simp add: pow2_def)

lemma pow2_mono: "j \<le> k \<Longrightarrow> pow2 j \<le> pow2 k"
  by (simp add: pow2_def)

lemma pow2_add: "pow2 (j + k) = pow2 j * pow2 k"
  by (simp add: pow2_def powr_add)

lemma pow2_nat: "pow2 (int n) = 2 ^ n"
  by (simp add: pow2_def powr_realpow)

lemma pow2_neg_nat: "pow2 (- int n) = 1 / 2 ^ n"
  by (simp add: pow2_def powr_minus powr_realpow divide_inverse)

lemma floor_log2_bounds:
  assumes "x \<noteq> 0"
  shows "pow2 \<lfloor>log 2 \<bar>x\<bar>\<rfloor> \<le> \<bar>x\<bar>"
    and "\<bar>x\<bar> < pow2 (\<lfloor>log 2 \<bar>x\<bar>\<rfloor> + 1)"
  using floor_log_eq_powr_iff [of "\<bar>x\<bar>" 2 "\<lfloor>log 2 \<bar>x\<bar>\<rfloor>"] assms
  by (simp_all add: pow2_def)

lemma floor_log2_mono:
  assumes "0 < a" "a \<le> b"
  shows "\<lfloor>log 2 a\<rfloor> \<le> \<lfloor>log 2 b\<rfloor>"
  using assms by (intro floor_mono) simp

lemma binary64_exponent_mono:
  "0 < a \<Longrightarrow> a \<le> b \<Longrightarrow> binary64_exponent a \<le> binary64_exponent b"
  using floor_log2_mono [of a b] by (simp add: binary64_exponent_def)

lemma binary64_exponent_abs: "binary64_exponent (- x) = binary64_exponent x"
  by (simp add: binary64_exponent_def)

lemma scaled_lt:
  assumes "x \<noteq> 0"
  shows "\<bar>x\<bar> < pow2 (binary64_exponent x) * 2 ^ 53"
proof -
  have "\<lfloor>log 2 \<bar>x\<bar>\<rfloor> + 1 \<le> binary64_exponent x + 53"
    by (simp add: binary64_exponent_def)
  then have "pow2 (\<lfloor>log 2 \<bar>x\<bar>\<rfloor> + 1) \<le> pow2 (binary64_exponent x + 53)"
    by (rule pow2_mono)
  also have "\<dots> = pow2 (binary64_exponent x) * 2 ^ 53"
    using pow2_nat [of 53] by (simp only: pow2_add) simp
  finally show ?thesis using floor_log2_bounds(2) [OF assms] by linarith
qed

lemma scaled_ge:
  assumes "x \<noteq> 0" "- 1074 < binary64_exponent x"
  shows "pow2 (binary64_exponent x) * 2 ^ 52 \<le> \<bar>x\<bar>"
proof -
  from assms(2) have "binary64_exponent x + 52 = \<lfloor>log 2 \<bar>x\<bar>\<rfloor>"
    by (simp add: binary64_exponent_def max_def split: if_splits)
  with floor_log2_bounds(1) [OF assms(1)] have "pow2 (binary64_exponent x + 52) \<le> \<bar>x\<bar>"
    by simp
  moreover have "pow2 (binary64_exponent x + 52) = pow2 (binary64_exponent x) * 2 ^ 52"
    using pow2_nat [of 52] by (simp only: pow2_add) simp
  ultimately show ?thesis by simp
qed

lemma round_half_even_minus: "round_half_even (- q) = - round_half_even q"
proof (cases "q = real_of_int \<lfloor>q\<rfloor>")
  case True
  then obtain k where "q = real_of_int k" ..
  then show ?thesis
    using round_half_even_of_int [of "- k"] by (simp add: round_half_even_of_int)
next
  case False
  then have fl: "\<lfloor>- q\<rfloor> = - \<lfloor>q\<rfloor> - 1"
    by (metis ceiling_altdef ceiling_def diff_minus_eq_add minus_add_distrib minus_minus of_int_floor_cancel)
  have d: "- q - real_of_int (- \<lfloor>q\<rfloor> - 1) = 1 - (q - real_of_int \<lfloor>q\<rfloor>)" by simp
  show ?thesis
    unfolding round_half_even_def Let_def fl d
    by auto
qed

lemma round_binary64_minus: "round_binary64 (- x) = - round_binary64 x"
  by (simp add: round_binary64_def binary64_exponent_abs round_half_even_minus)

lemma scale_mono:
  "a \<le> b \<Longrightarrow> real_of_int a * pow2 k \<le> real_of_int b * pow2 k"
  using pow2_pos [of k] by (simp add: mult_right_mono)

lemma round_binary64_pos_upper:
  assumes "0 < x"
  shows "round_binary64 x \<le> pow2 (binary64_exponent x) * 2 ^ 53"
proof -
  let ?e = "binary64_exponent x"
  from scaled_lt [of x] assms have "x < pow2 ?e * 2 ^ 53" by simp
  then have "x / pow2 ?e < 2 ^ 53"
    using pow2_pos [of ?e] by (simp add: pos_divide_less_eq mult.commute)
  then have "x / pow2 ?e \<le> real_of_int (2 ^ 53)" by simp
  from scale_mono [OF round_half_even_le [OF this], of ?e] assms show ?thesis
    by (simp add: round_binary64_def mult.commute)
qed

lemma round_binary64_pos_lower:
  assumes "0 < x" "- 1074 < binary64_exponent x"
  shows "pow2 (binary64_exponent x) * 2 ^ 52 \<le> round_binary64 x"
proof -
  let ?e = "binary64_exponent x"
  from scaled_ge [of x] assms have "pow2 ?e * 2 ^ 52 \<le> x" by simp
  then have "2 ^ 52 \<le> x / pow2 ?e"
    using pow2_pos [of ?e] by (simp add: pos_le_divide_eq mult.commute)
  then have "real_of_int (2 ^ 52) \<le> x / pow2 ?e" by simp
  from scale_mono [OF round_half_even_ge [OF this], of ?e] assms show ?thesis
    by (simp add: round_binary64_def mult.commute)
qed

lemma round_binary64_nonneg:
  assumes "0 \<le> x"
  shows "0 \<le> round_binary64 x"
proof (cases "x = 0")
  case True
  then show ?thesis by (simp add: round_binary64_def)
next
  case False
  with assms pow2_pos [of "binary64_exponent x"]
  have "real_of_int 0 \<le> x / pow2 (binary64_exponent x)" by simp
  from scale_mono [OF round_half_even_ge [OF this], of "binary64_exponent x"] False show ?thesis
    by (simp add: round_binary64_def)
qed

lemma round_binary64_nonpos: "x \<le> 0 \<Longrightarrow> round_binary64 x \<le> 0"
  using round_binary64_nonneg [of "- x"] by (simp add: round_binary64_minus)

lemma round_binary64_mono_pos:
  assumes "0 < x" "x \<le> y"
  shows "round_binary64 x \<le> round_binary64 y"
proof -
  let ?ex = "binary64_exponent x" and ?ey = "binary64_exponent y"
  from assms have y: "0 < y" by simp
  have le: "?ex \<le> ?ey" using assms by (rule binary64_exponent_mono)
  show ?thesis
  proof (cases "?ex = ?ey")
    case True
    have "x / pow2 ?ex \<le> y / pow2 ?ex"
      using assms(2) pow2_pos [of ?ex] by (simp add: divide_right_mono)
    from scale_mono [OF round_half_even_mono [OF this], of ?ex] assms(1) y True
    show ?thesis by (simp add: round_binary64_def)
  next
    case False
    with le have lt: "?ex + 1 \<le> ?ey" by simp
    have "- 1074 \<le> ?ex" by (simp add: binary64_exponent_def)
    with lt have "- 1074 < ?ey" by simp
    from pow2_mono [OF lt] have "pow2 ?ex * 2 \<le> pow2 ?ey"
      using pow2_nat [of 1] by (simp add: pow2_add)
    then have "pow2 ?ex * 2 ^ 53 \<le> pow2 ?ey * 2 ^ 52" by simp
    with round_binary64_pos_lower [OF y \<open>- 1074 < ?ey\<close>] round_binary64_pos_upper [OF assms(1)]
    show ?thesis by linarith
  qed
qed

lemma round_binary64_mono:
  assumes "x \<le> y"
  shows "round_binary64 x \<le> round_binary64 y"
proof -
  consider "0 < x" | "x \<le> 0" "0 \<le> y" | "y < 0" using assms by linarith
  then show ?thesis
  proof cases
    case 1
    then show ?thesis using assms by (rule round_binary64_mono_pos)
  next
    case 2
    from round_binary64_nonpos [OF 2(1)] round_binary64_nonneg [OF 2(2)]
    show ?thesis by linarith
  next
    case 3
    then have "0 < - y" "- y \<le> - x" using assms by simp_all
    from round_binary64_mono_pos [OF this] show ?thesis
      by (simp add: round_binary64_minus)
  qed
qed

lemma pow2_numeral: "pow2 (numeral n) = 2 ^ numeral n"
  using pow2_nat [of "numeral n"] by simp

lemma pow2_neg_numeral: "pow2 (- numeral n) = 1 / 2 ^ numeral n"
  using pow2_neg_nat [of "numeral n"] by simp

lemma pow2_0: "pow2 0 = 1"
  using pow2_nat [of 0] by simp

lemma pow2_1: "pow2 1 = 2"
  using pow2_nat [of 1] by simp

lemma pow2_neg_1: "pow2 (- 1) = 1 / 2"
  using pow2_neg_nat [of 1] by simp

lemmas pow2_eval = pow2_numeral pow2_neg_numeral pow2_0 pow2_1 pow2_neg_1

lemma binary64_exponent_eq:
  assumes "x \<noteq> 0" "pow2 k \<le> \<bar>x\<bar>" "\<bar>x\<bar> < pow2 (k + 1)"
  shows "binary64_exponent x = max (k - 52) (- 1074)"
proof -
  have "\<lfloor>log 2 \<bar>x\<bar>\<rfloor> = k"
    using assms floor_log_eq_powr_iff [of "\<bar>x\<bar>" 2 k] by (simp add: pow2_def)
  then show ?thesis by (simp add: binary64_exponent_def)
qed

lemma round_binary64_eval:
  assumes "x \<noteq> 0" "pow2 k \<le> \<bar>x\<bar>" "\<bar>x\<bar> < pow2 (k + 1)" "- 1022 \<le> k"
  shows "round_binary64 x = real_of_int (round_half_even (x / pow2 (k - 52))) * pow2 (k - 52)"
  using assms(1,4) binary64_exponent_eq [OF assms(1-3)] by (simp add: round_binary64_def)

lemma round_binary64_representable:
  assumes "\<bar>m\<bar> < 2 ^ 53" "- 1074 \<le> j"
  shows "round_binary64 (real_of_int m * pow2 j) = real_of_int m * pow2 j"
proof (cases "m = 0")
  case True
  then show ?thesis by (simp add: round_binary64_def)
next
  case False
  let ?x = "real_of_int m * pow2 j"
  let ?e = "binary64_exponent ?x"
  let ?L = "\<lfloor>log 2 \<bar>?x\<bar>\<rfloor>"
  from False pow2_pos [of j] have x0: "?x \<noteq> 0" by simp
  have "\<bar>?x\<bar> = real_of_int \<bar>m\<bar> * pow2 j"
    using pow2_pos [of j] by (simp add: abs_mult)
  also have "\<dots> < 2 ^ 53 * pow2 j"
  proof -
    from assms(1) have "real_of_int \<bar>m\<bar> < real_of_int (2 ^ 53)"
      by (rule of_int_less_iff [THEN iffD2])
    then have "real_of_int \<bar>m\<bar> < 2 ^ 53" by simp
    then show ?thesis by (rule mult_strict_right_mono) (rule pow2_pos)
  qed
  also have "\<dots> = pow2 (j + 53)"
    using pow2_nat [of 53] by (simp only: pow2_add) simp
  finally have "\<bar>?x\<bar> < pow2 (j + 53)" .
  with floor_log2_bounds(1) [OF x0] have "pow2 ?L < pow2 (j + 53)" by linarith
  then have "?L < j + 53"
    using pow2_mono [of "j + 53" ?L] by linarith
  with assms(2) have "?e \<le> j" by (simp add: binary64_exponent_def)
  then obtain e n where e: "binary64_exponent ?x = e" and j: "j = e + int n"
    by (metis nat_0_le diff_ge_0_iff_ge add_diff_cancel_left' add.commute diff_add_cancel)
  have pj: "pow2 j = pow2 e * 2 ^ n"
    unfolding j by (simp only: pow2_add pow2_nat)
  define x where "x = real_of_int m * pow2 j"
  have xe: "x = real_of_int (m * 2 ^ n) * pow2 e"
    unfolding x_def pj by simp
  then have "x / pow2 e = real_of_int (m * 2 ^ n)"
    using pow2_pos [of e] by simp
  then have "round_half_even (x / pow2 e) = m * 2 ^ n"
    by (simp only: round_half_even_of_int)
  moreover have "round_binary64 x = real_of_int (round_half_even (x / pow2 e)) * pow2 e"
    using x0 e unfolding x_def [symmetric] by (simp only: round_binary64_def if_False)
  ultimately have "round_binary64 x = x" using xe by simp
  then show ?thesis unfolding x_def .
qed

lemma round_binary64_of_int:
  assumes "\<bar>k\<bar> < 2 ^ 53"
  shows "round_binary64 (real_of_int k) = real_of_int k"
  using round_binary64_representable [OF assms, of 0] by (simp add: pow2_0)

section \<open>Arithmetic of the minutes\<close>

lemma py_int_of_int: "py_int (real_of_int n) = n"
  by (simp add: py_int_def)

lemma py_int_mono: "py_int x \<le> py_int y" if "x \<le> y"
proof -
  consider "0 \<le> x" | "x < 0" "0 \<le> y" | "x < 0" "y < 0" by linarith
  then show ?thesis
  proof cases
    case 1
    with that have "0 \<le> y" by simp
    with 1 that show ?thesis by (simp add: py_int_def floor_mono)
  next
    case 2
    then have "x \<le> 0" by simp
    then have "\<lceil>x\<rceil> \<le> 0" by (simp add: ceiling_le_iff)
    moreover have "0 \<le> \<lfloor>y\<rfloor>" using 2 by simp
    ultimately have "\<lceil>x\<rceil> \<le> \<lfloor>y\<rfloor>" by (rule order_trans)
    with 2 show ?thesis by (simp add: py_int_def)
  next
    case 3
    with that show ?thesis by (simp add: py_int_def ceiling_mono)
  qed
qed

lemma activity_minutes_eq:
  "activity_minutes s e a =
     (if join_time a \<ge> e then 0
      else \<lfloor>total_seconds (min e (join_time a) - max s (leave_time a)) / 60\<rfloor>)"
  by (simp add: activity_minutes_def Let_def py_floordiv_def py_int_of_int)

lemma threshold_eq:
  "minimum_minutes_threshold s e f =
     py_int (round_binary64 (real_of_int \<lfloor>total_seconds (e - s) / 60\<rfloor> * f))"
  by (simp add: minimum_minutes_threshold_def py_floordiv_def float_mul_def)

lemma total_seconds_exact:
  assumes "1000000 dvd td" "\<bar>td div 1000000\<bar> < 2 ^ 53"
  shows "total_seconds td = real_of_int (td div 1000000)"
proof -
  from assms(1) obtain k where k: "td = 1000000 * k" ..
  then have "real_of_int td / 1000000 = real_of_int (td div 1000000)" by simp
  with round_binary64_of_int [OF assms(2)] show ?thesis by (simp only: total_seconds_def)
qed

lemma minutes_nonneg: "0 \<le> td \<Longrightarrow> 0 \<le> \<lfloor>total_seconds td / 60\<rfloor>"
  using round_binary64_nonneg [of "real_of_int td / 1000000"] by (simp add: total_seconds_def)

lemma minutes_nonpos: "td \<le> 0 \<Longrightarrow> \<lfloor>total_seconds td / 60\<rfloor> \<le> 0"
proof -
  assume "td \<le> 0"
  then have "real_of_int td / 1000000 \<le> 0" by simp
  from round_binary64_nonpos [OF this] have "total_seconds td / 60 \<le> 0"
    by (simp add: total_seconds_def)
  then have "\<lfloor>total_seconds td / 60\<rfloor> \<le> \<lfloor>0::real\<rfloor>" by (rule floor_mono)
  then show ?thesis by simp
qed

lemma minutes_neg:
  assumes "td < 0"
  shows "\<lfloor>total_seconds td / 60\<rfloor> < 0"
proof -
  from assms have "td \<le> - 1" by simp
  then have "real_of_int td \<le> - 1" by (metis of_int_le_iff of_int_minus of_int_1)
  then have "real_of_int td / 1000000 \<le> real_of_int (- 1) * pow2 (- 20)"
    by (simp add: pow2_eval)
  from round_binary64_mono [OF this] round_binary64_representable [of "- 1" "- 20"]
  have "total_seconds td \<le> - pow2 (- 20)"
    by (simp add: total_seconds_def)
  with pow2_pos [of "- 20"] have "total_seconds td / 60 < 0" by simp
  then show ?thesis by (simp add: floor_less_iff)
qed

text \<open>
  Values of the float operations at the numbers of the examples below.  The last one is
  the product of the floats 10 and 0.7: the exact product lies half way between two
  floats, and the tie goes to 7.
\<close>

lemma total_seconds_numeral_eval:
  "total_seconds 0 = 0"
  "total_seconds (- 3600000000) = - 3600"
  "total_seconds 3600000000 = 3600"
  "total_seconds 600000000 = 600"
  "total_seconds (- 60000000) = - 60"
  "total_seconds (- 30000000) = - 30"
  "total_seconds (- 31000000) = - 31"
  "total_seconds (- 1800000000) = - 1800"
  "total_seconds 2400000000 = 2400"
  "total_seconds 1800000000 = 1800"
  by (simp_all add: total_seconds_exact)

lemma round_binary64_numeral_eval:
  "round_binary64 0 = 0"
  "round_binary64 (- (1 / 2)) = - (1 / 2)"
  "round_binary64 (- 1) = - 1"
  "round_binary64 60 = 60"
  "round_binary64 30 = 30"
  "round_binary64 6 = 6"
  "round_binary64 54 = 54"
  using round_binary64_representable [of "- 1" "- 1"] round_binary64_of_int [of "- 1"]
    round_binary64_of_int [of 60] round_binary64_of_int [of 30] round_binary64_of_int [of 6]
    round_binary64_of_int [of 54]
  by (simp_all add: pow2_eval round_binary64_def)

lemma float_10_times_0_7:
  "round_binary64 (15762598695796735 / 2251799813685248) = 7"
  by (subst round_binary64_eval [of _ 2]) (simp_all add: pow2_eval round_half_even_def)

text \<open>
  A difference of about 576 years: the seconds are rounded to a float, and the floored
  minutes are one more than the floor of the exact quotient.
\<close>

lemma total_seconds_rounds:
  "total_seconds (- 18169869600000001) = - 18169869600"
  "\<lfloor>total_seconds (- 18169869600000001) / 60\<rfloor> = - 302831160"
  "(- 18169869600000001 :: int) div 60000000 = - 302831161"
proof -
  show 1: "total_seconds (- 18169869600000001) = - 18169869600"
    unfolding total_seconds_def
    by (subst round_binary64_eval [of _ 34])
       (simp_all add: pow2_eval round_half_even_def floor_eq_iff)
  show "\<lfloor>total_seconds (- 18169869600000001) / 60\<rfloor> = - 302831160"
    by (simp add: 1)
  show "(- 18169869600000001 :: int) div 60000000 = - 302831161"
    by simp
qed

section \<open>The accumulation loop\<close>

lemma accumulate_activity_eq:
  "accumulate_activity s e a m =
     Inr (AList.update (email a)
            ((case map_of m (email a) of None \<Rightarrow> 0 | Some t \<Rightarrow> t) + activity_minutes s e a) m)"
  by (cases "map_of m (email a)")
     (simp_all add: accumulate_activity_def alist_getitem_def bind_result_def AList.update_conv')

lemma first_seen_Cons:
  "rev (remdups (rev (x # xs))) = x # filter (\<lambda>y. y \<noteq> x) (rev (remdups (rev xs)))"
proof -
  have "remdups (ys @ [x]) = filter (\<lambda>y. y \<noteq> x) (remdups ys) @ [x]" for ys
    by (induction ys) auto
  then show ?thesis by (simp add: rev_filter)
qed

lemma accumulate_activities_keys:
  "\<exists>d. accumulate_activities s e acts m = Inr d \<and>
       map fst d = map fst m @
         filter (\<lambda>k. k \<notin> set (map fst m)) (rev (remdups (rev (map InMeetingActivity.email acts))))"
proof (induction acts arbitrary: m)
  case Nil
  then show ?case by simp
next
  case (Cons a acts)
  let ?m' = "AList.update (email a)
            ((case map_of m (email a) of None \<Rightarrow> 0 | Some t \<Rightarrow> t) + activity_minutes s e a) m"
  from Cons.IH [of ?m'] obtain d where d: "accumulate_activities s e acts ?m' = Inr d"
    "map fst d = map fst ?m' @
         filter (\<lambda>k. k \<notin> set (map fst ?m')) (rev (remdups (rev (map InMeetingActivity.email acts))))"
    by blast
  have run: "accumulate_activities s e (a # acts) m = Inr d"
    using d(1) by (simp add: accumulate_activity_eq)
  show ?case
  proof (cases "email a \<in> set (map fst m)")
    case True
    then have "map fst ?m' = map fst m" by (simp add: update_keys)
    with d(2) True run show ?thesis
      by (auto simp add: first_seen_Cons simp del: remdups.simps rev.simps intro!: filter_cong)
  next
    case False
    then have "map fst ?m' = map fst m @ [email a]" by (simp add: update_keys)
    with d(2) False run show ?thesis
      by (auto simp add: first_seen_Cons simp del: remdups.simps rev.simps intro!: filter_cong)
  qed
qed

lemma accumulate_activities_values:
  "accumulate_activities s e acts m = Inr d \<Longrightarrow>
     map_of d k =
       (if k \<in> set (map fst m) \<union> InMeetingActivity.email ` set acts
        then Some ((case map_of m k of None \<Rightarrow> 0 | Some t \<Rightarrow> t)
                   + sum_list (map (activity_minutes s e)
                        (filter (\<lambda>a. InMeetingActivity.email a = k) acts)))
        else None)"
proof (induction acts arbitrary: m)
  case Nil
  then show ?case
    by (cases "map_of m k") (auto simp: map_of_eq_None_iff dest: map_of_SomeD intro: rev_image_eqI)
next
  case (Cons a acts)
  let ?m' = "AList.update (email a)
            ((case map_of m (email a) of None \<Rightarrow> 0 | Some t \<Rightarrow> t) + activity_minutes s e a) m"
  from Cons.prems have "accumulate_activities s e acts ?m' = Inr d"
    by (simp add: accumulate_activity_eq)
  from Cons.IH [OF this] show ?case
    by (auto simp add: update_conv' dom_update image_iff split: option.splits)
qed

lemma map_fst_filter_distinct:
  "distinct (map fst d) \<Longrightarrow>
     map fst (filter (\<lambda>(k, t). P t) d) =
     filter (\<lambda>k. \<exists>t. map_of d k = Some t \<and> P t) (map fst d)"
proof (induction d)
  case Nil
  then show ?case by simp
next
  case (Cons p d)
  obtain k t where p: "p = (k, t)" by (cases p)
  from Cons.prems p have notin: "k \<notin> fst ` set d" and dist: "distinct (map fst d)"
    by auto
  have "filter (\<lambda>k'. \<exists>t'. map_of (p # d) k' = Some t' \<and> P t') (map fst d)
        = filter (\<lambda>k'. \<exists>t'. map_of d k' = Some t' \<and> P t') (map fst d)"
    using notin p by (intro filter_cong) auto
  with Cons.IH [OF dist] p show ?case by simp
qed

lemma get_qualified_participants_eq:
  "get_qualified_participants acts s e f =
     Inr (filter (\<lambda>k. minimum_minutes_threshold s e f \<le> total_time_of s e acts k)
                 (rev (remdups (rev (map InMeetingActivity.email acts)))))"
proof -
  obtain d where d: "accumulate_activities s e acts [] = Inr d"
    and keys: "map fst d = rev (remdups (rev (map InMeetingActivity.email acts)))"
    using accumulate_activities_keys [of s e acts "[]"] by auto
  have dist: "distinct (map fst d)" by (simp add: keys)
  have vals: "map_of d k = (if k \<in> InMeetingActivity.email ` set acts
                            then Some (total_time_of s e acts k) else None)" for k
    using accumulate_activities_values [OF d, of k] by (simp add: total_time_of_def)
  have "map fst (filter (\<lambda>(k, t). minimum_minutes_threshold s e f \<le> t) d) =
        filter (\<lambda>k. \<exists>t. map_of d k = Some t \<and> minimum_minutes_threshold s e f \<le> t) (map fst d)"
    by (rule map_fst_filter_distinct [OF dist])
  also have "\<dots> = filter (\<lambda>k. minimum_minutes_threshold s e f \<le> total_time_of s e acts k)
                      (map fst d)"
    by (rule filter_cong) (auto simp: vals keys)
  finally show ?thesis
    using d keys by (simp add: get_qualified_participants_def bind_result_def)
qed

section \<open>Claims about the qualification\<close>

text \<open>
  Claim C1.  When the loop of \<open>get_qualified_participants\<close> has run over the activities, the
  total stored for an email is the sum, over the activities of that email, of 0 for an
  activity whose \<open>join_time\<close> is at or after the end of the window, and otherwise of the floor
  of \<open>(min(end, join_time) - max(start, leave_time))\<close> in seconds over 60, the start of the
  overlap coming from \<open>leave_time\<close> and its end from \<open>join_time\<close>; the emails returned are those
  whose sum reaches the threshold.  No amount is clamped: the amount of an activity that
  joined before the end of the window and before \<open>max(start, leave_time)\<close> is negative.
\<close>

theorem activity_minutes_formula:
  "(\<exists>d. accumulate_activities s e acts [] = Inr d \<and>
      (\<forall>k. map_of d k =
         (if k \<in> InMeetingActivity.email ` set acts
          then Some (sum_list (map
                 (\<lambda>a. if join_time a \<ge> e then 0
                      else \<lfloor>total_seconds (min e (join_time a) - max s (leave_time a)) / 60\<rfloor>)
                 (filter (\<lambda>a. InMeetingActivity.email a = k) acts)))
          else None))) \<and>
   (\<exists>res. get_qualified_participants acts s e f = Inr res \<and>
      (\<forall>k. (k \<in> set res) =
         (k \<in> InMeetingActivity.email ` set acts \<and>
          minimum_minutes_threshold s e f \<le> sum_list (map
                 (\<lambda>a. if join_time a \<ge> e then 0
                      else \<lfloor>total_seconds (min e (join_time a) - max s (leave_time a)) / 60\<rfloor>)
                 (filter (\<lambda>a. InMeetingActivity.email a = k) acts))))) \<and>
   (\<forall>a \<in> set acts. join_time a < e \<longrightarrow> join_time a < max s (leave_time a) \<longrightarrow>
      \<lfloor>total_seconds (min e (join_time a) - max s (leave_time a)) / 60\<rfloor> < 0)"
proof -
  have am: "activity_minutes s e =
      (\<lambda>a. if join_time a \<ge> e then 0
           else \<lfloor>total_seconds (min e (join_time a) - max s (leave_time a)) / 60\<rfloor>)"
    by (rule ext) (simp add: activity_minutes_eq)
  obtain d where d: "accumulate_activities s e acts [] = Inr d"
    using accumulate_activities_keys [of s e acts "[]"] by blast
  have loop: "\<exists>d. accumulate_activities s e acts [] = Inr d \<and>
      (\<forall>k. map_of d k =
         (if k \<in> InMeetingActivity.email ` set acts
          then Some (sum_list (map (activity_minutes s e)
                 (filter (\<lambda>a. InMeetingActivity.email a = k) acts)))
          else None))"
    using d accumulate_activities_values [OF d] by simp
  have res: "\<exists>res. get_qualified_participants acts s e f = Inr res \<and>
      (\<forall>k. (k \<in> set res) =
         (k \<in> InMeetingActivity.email ` set acts \<and>
          minimum_minutes_threshold s e f \<le> sum_list (map (activity_minutes s e)
                 (filter (\<lambda>a. InMeetingActivity.email a = k) acts))))"
    by (auto simp add: get_qualified_participants_eq total_time_of_def)
  have neg: "\<lfloor>total_seconds (min e (join_time a) - max s (leave_time a)) / 60\<rfloor> < 0"
    if "join_time a < e" "join_time a < max s (leave_time a)" for a
  proof -
    from that have "min e (join_time a) - max s (leave_time a) < 0" by simp
    then show ?thesis by (rule minutes_neg)
  qed
  show ?thesis
    using loop res neg unfolding am by blast
qed

text \<open>
  The window 14:00 to 15:00 and three activities: a (joined 14:00, left 14:30) counts -30,
  b (joined 14:50, left 14:10) counts 40, a again (joined 15:00) counts 0.  With the
  fraction 1/2 the threshold is 30 and only b is returned.
\<close>

theorem activity_minutes_formula_witness:
  "accumulate_activities 50400000000 54000000000
     [\<lparr>name = ''n'', email = ''a@x'', join_time = 50400000000, leave_time = 52200000000,
       duration = ''30m'', role = ''Attendee''\<rparr>,
      \<lparr>name = ''n'', email = ''b@x'', join_time = 53400000000, leave_time = 51000000000,
       duration = ''40m'', role = ''Attendee''\<rparr>,
      \<lparr>name = ''n'', email = ''a@x'', join_time = 54000000000, leave_time = 54600000000,
       duration = ''10m'', role = ''Attendee''\<rparr>] []
   = Inr [(''a@x'', - 30), (''b@x'', 40)] \<and>
   get_qualified_participants
     [\<lparr>name = ''n'', email = ''a@x'', join_time = 50400000000, leave_time = 52200000000,
       duration = ''30m'', role = ''Attendee''\<rparr>,
      \<lparr>name = ''n'', email = ''b@x'', join_time = 53400000000, leave_time = 51000000000,
       duration = ''40m'', role = ''Attendee''\<rparr>,
      \<lparr>name = ''n'', email = ''a@x'', join_time = 54000000000, leave_time = 54600000000,
       duration = ''10m'', role = ''Attendee''\<rparr>] 50400000000 54000000000 (1 / 2)
   = Inr [''b@x''] \<and>
   (50400000000 :: int) < 54000000000 \<and> (50400000000 :: int) < max 50400000000 52200000000 \<and>
   \<lfloor>total_seconds (min 54000000000 50400000000 - max 50400000000 52200000000) / 60\<rfloor> = - 30"
  using activity_minutes_formula [of 50400000000 54000000000
     "[\<lparr>name = ''n'', email = ''a@x'', join_time = 50400000000, leave_time = 52200000000,
       duration = ''30m'', role = ''Attendee''\<rparr>,
      \<lparr>name = ''n'', email = ''b@x'', join_time = 53400000000, leave_time = 51000000000,
       duration = ''40m'', role = ''Attendee''\<rparr>,
      \<lparr>name = ''n'', email = ''a@x'', join_time = 54000000000, leave_time = 54600000000,
       duration = ''10m'', role = ''Attendee''\<rparr>]" "1 / 2"]
  by (simp add: accumulate_activity_eq activity_minutes_eq get_qualified_participants_eq
        total_time_of_def threshold_eq py_int_def total_seconds_numeral_eval
        round_binary64_numeral_eval)

text \<open>
  Claim C2, as stated: the threshold is the floor of the window's minutes times the
  fraction.  It fails for a window of minus one minute and the fraction 1/2: the product is
  -1/2, its floor is -1, and \<open>int\<close> gives 0, whether the window's minutes are floored first, as
  the code does, or not.  It also fails for a window of 10 minutes and the float 0.7: the
  float product is 7, and the floor of the exact product is 6.
\<close>

theorem threshold_floor_counterexample:
  "minimum_minutes_threshold 60000000 0 (1 / 2)
     \<noteq> \<lfloor>real_of_int \<lfloor>total_seconds (0 - 60000000) / 60\<rfloor> * (1 / 2)\<rfloor> \<and>
   minimum_minutes_threshold 60000000 0 (1 / 2)
     \<noteq> \<lfloor>total_seconds (0 - 60000000) / 60 * (1 / 2)\<rfloor> \<and>
   minimum_minutes_threshold 0 600000000 (3152519739159347 / 4503599627370496)
     \<noteq> \<lfloor>real_of_int \<lfloor>total_seconds (600000000 - 0) / 60\<rfloor>
          * (3152519739159347 / 4503599627370496)\<rfloor>"
  by (simp add: threshold_eq py_int_def ceiling_eq_iff floor_eq_iff total_seconds_numeral_eval
        round_binary64_numeral_eval float_10_times_0_7)

text \<open>
  Claim C2, amended: the threshold is the float product of the floored minutes of the
  window and the fraction, truncated towards zero; it is the floor of that float product
  when the window is not inverted and the fraction is not negative.
\<close>

theorem threshold_truncates:
  "minimum_minutes_threshold s e f =
     (if 0 \<le> float_mul (real_of_int \<lfloor>total_seconds (e - s) / 60\<rfloor>) f
      then \<lfloor>float_mul (real_of_int \<lfloor>total_seconds (e - s) / 60\<rfloor>) f\<rfloor>
      else \<lceil>float_mul (real_of_int \<lfloor>total_seconds (e - s) / 60\<rfloor>) f\<rceil>) \<and>
   (s \<le> e \<longrightarrow> 0 \<le> f \<longrightarrow>
      minimum_minutes_threshold s e f
        = \<lfloor>float_mul (real_of_int \<lfloor>total_seconds (e - s) / 60\<rfloor>) f\<rfloor>)"
proof -
  have "0 \<le> float_mul (real_of_int \<lfloor>total_seconds (e - s) / 60\<rfloor>) f" if "s \<le> e" "0 \<le> f"
  proof -
    from that(1) have "0 \<le> \<lfloor>total_seconds (e - s) / 60\<rfloor>" by (intro minutes_nonneg) simp
    with that(2) have "0 \<le> real_of_int \<lfloor>total_seconds (e - s) / 60\<rfloor> * f" by simp
    then show ?thesis unfolding float_mul_def by (rule round_binary64_nonneg)
  qed
  then show ?thesis
    by (simp add: threshold_eq py_int_def float_mul_def)
qed

text \<open>
  A window of 10 minutes and the float 0.7: 7 minutes.
\<close>

theorem threshold_truncates_witness:
  "(0::int) \<le> 600000000 \<and> (0::real) \<le> 3152519739159347 / 4503599627370496 \<and>
   minimum_minutes_threshold 0 600000000 (3152519739159347 / 4503599627370496) = 7 \<and>
   \<lfloor>float_mul (real_of_int \<lfloor>total_seconds (600000000 - 0) / 60\<rfloor>)
       (3152519739159347 / 4503599627370496)\<rfloor> = 7"
  using threshold_truncates [of 0 600000000 "3152519739159347 / 4503599627370496"]
  by (simp add: float_mul_def total_seconds_numeral_eval float_10_times_0_7)

text \<open>
  Claim C3, as stated: when the window ends at or before its start, every email of the
  activities qualifies, whatever the fraction.  It fails twice.  With the window
  \<open>[1:00, 1:00)\<close> and the fraction 1/2 the threshold is 0, and an activity that joined at 0:00
  counts minus 60 minutes, so its email is not returned.  With the window from 1:00 back to
  0:00 and the fraction -1 the threshold is 60 minutes, and an email with a total of 0 is
  not returned.
\<close>

theorem inverted_window_counterexample:
  "(3600000000::int) \<le> 3600000000 \<and>
   get_qualified_participants
     [\<lparr>name = ''n'', email = ''a@x'', join_time = 0, leave_time = 0,
       duration = ''0m'', role = ''Attendee''\<rparr>] 3600000000 3600000000 (1 / 2) = Inr [] \<and>
   (0::int) \<le> 3600000000 \<and>
   get_qualified_participants
     [\<lparr>name = ''n'', email = ''a@x'', join_time = 7200000000, leave_time = 7200000000,
       duration = ''0m'', role = ''Attendee''\<rparr>] 3600000000 0 (- 1) = Inr []"
  by (simp add: get_qualified_participants_eq total_time_of_def activity_minutes_eq
        threshold_eq py_int_def total_seconds_numeral_eval round_binary64_numeral_eval)

text \<open>
  Claim C3, amended: when the window ends at or before its start and the fraction is not
  negative, the threshold is at most 0, and every email of the activities whose activities
  all joined at or after the end of the window is returned.
\<close>

theorem inverted_window_qualifies:
  assumes "e \<le> s" and "0 \<le> f"
    and "k \<in> InMeetingActivity.email ` set acts"
    and "\<forall>a \<in> set acts. InMeetingActivity.email a = k \<longrightarrow> e \<le> join_time a"
  shows "minimum_minutes_threshold s e f \<le> 0 \<and>
         (\<exists>res. get_qualified_participants acts s e f = Inr res \<and> k \<in> set res)"
proof -
  have "\<lfloor>total_seconds (e - s) / 60\<rfloor> \<le> 0"
    using assms(1) by (intro minutes_nonpos) simp
  then have "real_of_int \<lfloor>total_seconds (e - s) / 60\<rfloor> * f \<le> 0"
    using assms(2) by (simp add: mult_le_0_iff)
  then have "round_binary64 (real_of_int \<lfloor>total_seconds (e - s) / 60\<rfloor> * f) \<le> 0"
    by (rule round_binary64_nonpos)
  from py_int_mono [OF this] have thr: "minimum_minutes_threshold s e f \<le> 0"
    by (simp add: threshold_eq py_int_def)
  have zero: "sum_list (map (activity_minutes s e) xs) = 0"
    if "\<forall>a \<in> set xs. e \<le> join_time a" for xs
    using that by (induction xs) (simp_all add: activity_minutes_eq)
  have "total_time_of s e acts k = 0"
    unfolding total_time_of_def using assms(4) by (intro zero) simp
  with thr assms(3) show ?thesis
    by (simp add: get_qualified_participants_eq)
qed

text \<open>
  The window from 1:00 back to 0:00, the fraction 1/2, one activity that joined at 0:30.
\<close>

theorem inverted_window_qualifies_witness:
  "(0::int) \<le> 3600000000 \<and> (0::real) \<le> 1 / 2 \<and>
   minimum_minutes_threshold 3600000000 0 (1 / 2) \<le> 0 \<and>
   (\<exists>res. get_qualified_participants
     [\<lparr>name = ''n'', email = ''a@x'', join_time = 1800000000, leave_time = 2700000000,
       duration = ''15m'', role = ''Attendee''\<rparr>] 3600000000 0 (1 / 2) = Inr res \<and>
     ''a@x'' \<in> set res)"
  using inverted_window_qualifies [of 0 3600000000 "1 / 2" "''a@x''"
     "[\<lparr>name = ''n'', email = ''a@x'', join_time = 1800000000, leave_time = 2700000000,
       duration = ''15m'', role = ''Attendee''\<rparr>]"]
  by simp

text \<open>
  Claim C4, as stated: for a fixed window and fixed activities, a smaller fraction returns
  a superset.  It fails for a window from 30 s back to 0 s and an activity that joined at
  -1 s, whose total is -1 minute: the fraction 1 gives the threshold -1 and returns the
  email, the fraction 1/2 gives the threshold 0 and returns nothing.
\<close>

theorem fraction_monotone_counterexample:
  "(1 / 2 :: real) < 1 \<and>
   get_qualified_participants
     [\<lparr>name = ''n'', email = ''a@x'', join_time = - 1000000, leave_time = 0,
       duration = ''0m'', role = ''Attendee''\<rparr>] 30000000 0 (1 / 2) = Inr [] \<and>
   get_qualified_participants
     [\<lparr>name = ''n'', email = ''a@x'', join_time = - 1000000, leave_time = 0,
       duration = ''0m'', role = ''Attendee''\<rparr>] 30000000 0 1 = Inr [''a@x'']"
  by (simp add: get_qualified_participants_eq total_time_of_def activity_minutes_eq
        threshold_eq py_int_def ceiling_le_iff total_seconds_numeral_eval
        round_binary64_numeral_eval)

text \<open>
  Claim C4, amended: for a window that does not end before its start, fixed activities and
  fractions \<open>f1 < f2\<close>, the emails returned for \<open>f2\<close> are among those returned for \<open>f1\<close>.
\<close>

theorem fraction_monotone:
  assumes "s \<le> e" and "f1 < f2"
  shows "\<exists>r1 r2. get_qualified_participants acts s e f1 = Inr r1 \<and>
                 get_qualified_participants acts s e f2 = Inr r2 \<and> set r2 \<subseteq> set r1"
proof -
  have "0 \<le> \<lfloor>total_seconds (e - s) / 60\<rfloor>"
    using assms(1) by (intro minutes_nonneg) simp
  then have "real_of_int \<lfloor>total_seconds (e - s) / 60\<rfloor> * f1
             \<le> real_of_int \<lfloor>total_seconds (e - s) / 60\<rfloor> * f2"
    using assms(2) by (simp add: mult_left_mono)
  from py_int_mono [OF round_binary64_mono [OF this]]
  have "minimum_minutes_threshold s e f1 \<le> minimum_minutes_threshold s e f2"
    by (simp add: threshold_eq)
  then show ?thesis
    by (auto simp add: get_qualified_participants_eq)
qed

text \<open>
  A window of 60 minutes, one activity of 30 minutes, the fractions 1/10 and 9/10.
\<close>

theorem fraction_monotone_witness:
  "(0::int) \<le> 3600000000 \<and> (1 / 10 :: real) < 9 / 10 \<and>
   (\<exists>r1 r2. get_qualified_participants
     [\<lparr>name = ''n'', email = ''a@x'', join_time = 1800000000, leave_time = 0,
       duration = ''30m'', role = ''Attendee''\<rparr>] 0 3600000000 (1 / 10) = Inr r1 \<and>
     get_qualified_participants
     [\<lparr>name = ''n'', email = ''a@x'', join_time = 1800000000, leave_time = 0,
       duration = ''30m'', role = ''Attendee''\<rparr>] 0 3600000000 (9 / 10) = Inr r2 \<and>
     set r2 \<subseteq> set r1)"
  using fraction_monotone [of 0 3600000000 "1 / 10" "9 / 10"
     "[\<lparr>name = ''n'', email = ''a@x'', join_time = 1800000000, leave_time = 0,
       duration = ''30m'', role = ''Attendee''\<rparr>]"]
  by simp

text \<open>
  Claim C8.  The call returns a list without duplicates, and the list is the emails of the
  activities in the order of their first appearance, \<open>rev (remdups (rev emails))\<close>, restricted
  to the emails returned.
\<close>

theorem result_distinct_first_seen:
  "\<exists>res. get_qualified_participants acts s e f = Inr res \<and> distinct res \<and>
     res = filter (\<lambda>k. k \<in> set res) (rev (remdups (rev (map InMeetingActivity.email acts))))"
proof -
  let ?fs = "rev (remdups (rev (map InMeetingActivity.email acts)))"
  let ?P = "\<lambda>k. minimum_minutes_threshold s e f \<le> total_time_of s e acts k"
  have "filter ?P ?fs = filter (\<lambda>k. k \<in> set (filter ?P ?fs)) ?fs"
    by (rule filter_cong) auto
  then show ?thesis
    by (simp add: get_qualified_participants_eq)
qed

text \<open>
  Four activities of the emails b, a, c, b in a window of 60 minutes with the fraction 1/2:
  b (60 minutes) and c (30 minutes) are returned, in this order; a (10 minutes) is not.
\<close>

theorem result_distinct_first_seen_witness:
  "get_qualified_participants
     [\<lparr>name = ''n'', email = ''b@x'', join_time = 1800000000, leave_time = 0,
       duration = ''30m'', role = ''Attendee''\<rparr>,
      \<lparr>name = ''n'', email = ''a@x'', join_time = 600000000, leave_time = 0,
       duration = ''10m'', role = ''Attendee''\<rparr>,
      \<lparr>name = ''n'', email = ''c@x'', join_time = 1800000000, leave_time = 0,
       duration = ''30m'', role = ''Attendee''\<rparr>,
      \<lparr>name = ''n'', email = ''b@x'', join_time = 1800000000, leave_time = 0,
       duration = ''30m'', role = ''Attendee''\<rparr>] 0 3600000000 (1 / 2)
   = Inr [''b@x'', ''c@x''] \<and>
   distinct [''b@x'', ''c@x''] \<and>
   [''b@x'', ''c@x''] =
     filter (\<lambda>k. k \<in> set [''b@x'', ''c@x'']) (rev (remdups (rev [''b@x'', ''a@x'', ''c@x'', ''b@x''])))"
  using result_distinct_first_seen [of
     "[\<lparr>name = ''n'', email = ''b@x'', join_time = 1800000000, leave_time = 0,
       duration = ''30m'', role = ''Attendee''\<rparr>,
      \<lparr>name = ''n'', email = ''a@x'', join_time = 600000000, leave_time = 0,
       duration = ''10m'', role = ''Attendee''\<rparr>,
      \<lparr>name = ''n'', email = ''c@x'', join_time = 1800000000, leave_time = 0,
       duration = ''30m'', role = ''Attendee''\<rparr>,
      \<lparr>name = ''n'', email = ''b@x'', join_time = 1800000000, leave_time = 0,
       duration = ''30m'', role = ''Attendee''\<rparr>]" 0 3600000000 "1 / 2"]
  by (simp add: get_qualified_participants_eq total_time_of_def activity_minutes_eq
        threshold_eq py_int_def total_seconds_numeral_eval round_binary64_numeral_eval)

section \<open>The scan and the accessors\<close>

lemma section_index_step_eq:
  "section_index_step mp i row idxs =
     (case row of
        [] \<Rightarrow> Inl IndexError
      | section_name # rest \<Rightarrow>
          Inr (case mp section_name of None \<Rightarrow> idxs | Some l \<Rightarrow> idxs(l \<mapsto> i + 2)))"
  by (cases row) (simp_all add: section_index_step_def list_getitem_def bind_result_def
        split: option.split)

lemma section_index_loop_append:
  "section_index_loop mp i (xs @ ys) idxs =
     (case section_index_loop mp i xs idxs of
        Inl e \<Rightarrow> Inl e
      | Inr m \<Rightarrow> section_index_loop mp (i + length xs) ys m)"
  by (induction xs arbitrary: i idxs) (simp_all split: sum.split)

lemma section_index_loop_total:
  "\<forall>r \<in> set rows. r \<noteq> [] \<Longrightarrow> \<exists>offs. section_index_loop mp i rows idxs = Inr offs"
proof (induction rows arbitrary: i idxs)
  case Nil
  then show ?case by simp
next
  case (Cons r rows)
  then obtain n fs where "r = n # fs" by (cases r) auto
  with Cons show ?case by (simp add: section_index_step_eq)
qed

lemma section_index_loop_fails:
  "[] \<in> set rows \<Longrightarrow> section_index_loop mp i rows idxs = Inl IndexError"
proof (induction rows arbitrary: i idxs)
  case Nil
  then show ?case by simp
next
  case (Cons r rows)
  then show ?case
    by (cases r) (auto simp add: section_index_step_eq)
qed

lemma section_index_loop_error:
  "section_index_loop mp i rows idxs = Inl e \<Longrightarrow> e = IndexError \<and> [] \<in> set rows"
proof (induction rows arbitrary: i idxs)
  case Nil
  then show ?case by simp
next
  case (Cons r rows)
  then show ?case
    by (cases r) (auto simp add: section_index_step_eq)
qed


lemma last_match_snoc:
  "(\<exists>j < length (xs @ [x]). n = j + 2 \<and> P ((xs @ [x]) ! j) \<and>
      (\<forall>j' < length (xs @ [x]). j < j' \<longrightarrow> \<not> P ((xs @ [x]) ! j')))
   = (if P x then n = length xs + 2
      else (\<exists>j < length xs. n = j + 2 \<and> P (xs ! j) \<and>
              (\<forall>j' < length xs. j < j' \<longrightarrow> \<not> P (xs ! j'))))"
  (is "?L = ?R")
proof (cases "P x")
  case True
  have "?L = (n = length xs + 2)"
  proof
    assume ?L
    then obtain j where j: "j < length (xs @ [x])" "n = j + 2"
      and later: "\<forall>j' < length (xs @ [x]). j < j' \<longrightarrow> \<not> P ((xs @ [x]) ! j')" by blast
    have "\<not> j < length xs"
    proof
      assume "j < length xs"
      moreover have "length xs < length (xs @ [x])" by simp
      ultimately have "\<not> P ((xs @ [x]) ! length xs)" using later by blast
      with True show False by simp
    qed
    with j show "n = length xs + 2" by simp
  next
    assume "n = length xs + 2"
    with True have "length xs < length (xs @ [x]) \<and> n = length xs + 2 \<and>
       P ((xs @ [x]) ! length xs) \<and>
       (\<forall>j' < length (xs @ [x]). length xs < j' \<longrightarrow> \<not> P ((xs @ [x]) ! j'))"
      by simp
    then show ?L by blast
  qed
  with True show ?thesis by simp
next
  case False
  have "?L = (\<exists>j < length xs. n = j + 2 \<and> P (xs ! j) \<and>
              (\<forall>j' < length xs. j < j' \<longrightarrow> \<not> P (xs ! j')))" (is "_ = ?M")
  proof
    assume ?L
    then obtain j where j: "j < length (xs @ [x])" "n = j + 2" "P ((xs @ [x]) ! j)"
      and later: "\<forall>j' < length (xs @ [x]). j < j' \<longrightarrow> \<not> P ((xs @ [x]) ! j')" by blast
    have jlt: "j < length xs"
    proof (rule ccontr)
      assume "\<not> j < length xs"
      with j(1) have "j = length xs" by simp
      with j(3) False show False by simp
    qed
    have "\<not> P (xs ! j')" if "j' < length xs" "j < j'" for j'
    proof -
      from that later have "\<not> P ((xs @ [x]) ! j')" by simp
      with that show ?thesis by (simp add: nth_append)
    qed
    with jlt j show ?M by (auto simp add: nth_append)
  next
    assume ?M
    then obtain j where j: "j < length xs" "n = j + 2" "P (xs ! j)"
      and later: "\<forall>j' < length xs. j < j' \<longrightarrow> \<not> P (xs ! j')" by blast
    have "\<not> P ((xs @ [x]) ! j')" if "j' < length (xs @ [x])" "j < j'" for j'
    proof (cases "j' < length xs")
      case True
      with later that show ?thesis by (simp add: nth_append)
    next
      case F: False
      with that have "j' = length xs" by simp
      with False show ?thesis by simp
    qed
    moreover have "j < length (xs @ [x])" "P ((xs @ [x]) ! j)"
      using j by (simp_all add: nth_append)
    ultimately show ?L using j(2) by blast
  qed
  with False show ?thesis by simp
qed

lemma section_index_loop_last:
  "section_index_loop mp 0 rows Map.empty = Inr offs \<Longrightarrow>
     (offs l = Some n) =
     (\<exists>j < length rows. n = j + 2 \<and> mp (hd (rows ! j)) = Some l \<and>
        (\<forall>j' < length rows. j < j' \<longrightarrow> mp (hd (rows ! j')) \<noteq> Some l))"
proof (induction rows arbitrary: offs rule: rev_induct)
  case Nil
  then show ?case by auto
next
  case (snoc r rows)
  from snoc.prems obtain offs' where
    offs': "section_index_loop mp 0 rows Map.empty = Inr offs'"
    and step: "section_index_step mp (length rows) r offs' = Inr offs"
    by (auto simp add: section_index_loop_append split: sum.splits)
  from step obtain nm fs where r: "r = nm # fs"
    by (cases r) (auto simp add: section_index_step_eq)
  have offs: "offs = (case mp nm of None \<Rightarrow> offs' | Some l' \<Rightarrow> offs'(l' \<mapsto> length rows + 2))"
    using step r by (simp add: section_index_step_eq)
  have "(offs l = Some n) =
        (if mp (hd r) = Some l then n = length rows + 2 else offs' l = Some n)"
    by (cases "mp nm") (auto simp add: offs r)
  also have "\<dots> = (if mp (hd r) = Some l then n = length rows + 2
      else (\<exists>j < length rows. n = j + 2 \<and> mp (hd (rows ! j)) = Some l \<and>
              (\<forall>j' < length rows. j < j' \<longrightarrow> mp (hd (rows ! j')) \<noteq> Some l)))"
    by (simp only: snoc.IH [OF offs'])
  also have "\<dots> = (\<exists>j < length (rows @ [r]). n = j + 2 \<and> mp (hd ((rows @ [r]) ! j)) = Some l \<and>
      (\<forall>j' < length (rows @ [r]). j < j' \<longrightarrow> mp (hd ((rows @ [r]) ! j')) \<noteq> Some l))"
    by (rule last_match_snoc [where P = "\<lambda>row. mp (hd row) = Some l", symmetric])
  finally show ?case .
qed

lemma section_index_loop_absent:
  "section_index_loop mp i rows idxs = Inr offs \<Longrightarrow>
   \<forall>r \<in> set rows. mp (hd r) \<noteq> Some l \<Longrightarrow> offs l = idxs l"
proof (induction rows arbitrary: i idxs)
  case Nil
  then show ?case by simp
next
  case (Cons r rows)
  from Cons.prems(1) obtain nm rest where r: "r = nm # rest"
    by (cases r) (auto simp add: section_index_step_eq)
  let ?m = "case mp nm of None \<Rightarrow> idxs | Some l' \<Rightarrow> idxs(l' \<mapsto> i + 2)"
  from Cons.prems(1) r have "section_index_loop mp (Suc i) rows ?m = Inr offs"
    by (simp add: section_index_step_eq)
  from Cons.IH [OF this] Cons.prems(2) have "offs l = ?m l" by simp
  also have "?m l = idxs l"
    using Cons.prems(2) r by (auto split: option.split)
  finally show ?case .
qed




lemma AttendanceReader_init_raises: "AttendanceReader_init rows cfg = Inl ValueError"
  by (simp add: AttendanceReader_init_def init_csv_reader_def csv_reader_iter_def bind_result_def)

lemma py_range_Nil_iff: "(py_range s e = []) = (e \<le> int s)"
  by (auto simp add: py_range_def)

lemma extract_participants_loop_eq:
  "extract_participants_loop strptime self idxs acc =
     (if idxs = [] then Inr acc else Inl TypeError)"
  by (cases idxs) (simp_all add: csv_reader_getitem_def)

lemma extract_in_meeting_activities_loop_eq:
  "extract_in_meeting_activities_loop strptime self idxs acc =
     (if idxs = [] then Inr acc else Inl TypeError)"
  by (cases idxs) (simp_all add: csv_reader_getitem_def)

lemma extract_start_time_eq:
  "extract_start_time strptime self =
     (case section_indexes self START_TIME of None \<Rightarrow> Inl KeyError | Some i \<Rightarrow> Inl TypeError)"
  by (simp add: extract_start_time_def dict_getitem_def bind_result_def csv_reader_getitem_def
        split: option.split)

lemma extract_participants_eq:
  "extract_participants strptime self =
     (case section_indexes self PARTICIPANTS of
        None \<Rightarrow> Inl KeyError
      | Some s \<Rightarrow>
          (case section_indexes self MEETING_ACTIVITIES of
             None \<Rightarrow> Inl KeyError
           | Some e \<Rightarrow> if int e - 3 \<le> int s then Inr [] else Inl TypeError))"
  by (simp add: extract_participants_def dict_getitem_def bind_result_def
        extract_participants_loop_eq py_range_Nil_iff split: option.split)

lemma extract_in_meeting_activities_eq:
  "extract_in_meeting_activities strptime self =
     (case section_indexes self MEETING_ACTIVITIES of
        None \<Rightarrow> Inl KeyError
      | Some s \<Rightarrow>
          (case section_indexes self VIDEO_AND_AUDIO_CONSENT of
             None \<Rightarrow> Inl KeyError
           | Some e \<Rightarrow> if int e - 3 \<le> int s then Inr [] else Inl TypeError))"
  by (simp add: extract_in_meeting_activities_def dict_getitem_def bind_result_def
        extract_in_meeting_activities_loop_eq py_range_Nil_iff split: option.split)

section \<open>Claims about the reader\<close>

text \<open>
  Claim C5.  A row whose first field is a mapped heading text stores the row's index plus 2
  under the heading's label; a row whose first field is not mapped leaves the indexes
  unchanged.  After a scan that returns, every row has a first field, and the index stored
  under a label is the index plus 2 of the last row whose first field maps to the label;
  nothing is stored under a label that no row maps to.
\<close>

theorem section_indexes_last_match:
  "section_index_step mp i (section_name # rest) idxs =
     Inr (case mp section_name of None \<Rightarrow> idxs | Some l \<Rightarrow> idxs(l \<mapsto> i + 2)) \<and>
   (extract_section_indexes mp rows = Inr offs \<longrightarrow>
      (\<forall>r \<in> set rows. r \<noteq> []) \<and>
      (\<forall>l n. (offs l = Some n) =
         (\<exists>j < length rows. n = j + 2 \<and> mp (hd (rows ! j)) = Some l \<and>
            (\<forall>j' < length rows. j < j' \<longrightarrow> mp (hd (rows ! j')) \<noteq> Some l))))"
proof -
  have "\<forall>r \<in> set rows. r \<noteq> []" if "extract_section_indexes mp rows = Inr offs"
  proof (rule ccontr)
    assume "\<not> (\<forall>r \<in> set rows. r \<noteq> [])"
    then have "[] \<in> set rows" by auto
    from section_index_loop_fails [OF this] that show False
      by (simp add: extract_section_indexes_def)
  qed
  then show ?thesis
    by (auto simp add: section_index_step_eq extract_section_indexes_def
          section_index_loop_last)
qed

text \<open>
  The heading of the participants in the rows 0 and 2: the index stored is 4.
\<close>

theorem section_indexes_last_match_witness:
  "extract_section_indexes (section_headings_mapping ATTENDANCE_CONFIG_of_tracker)
     [[''2. Participants''], [''x'', ''y''], [''2. Participants'', ''again''], [''z'']]
   = Inr [PARTICIPANTS \<mapsto> 4] \<and>
   (\<exists>j < length [[''2. Participants''], [''x'', ''y''], [''2. Participants'', ''again''], [''z'']].
       (4::nat) = j + 2 \<and>
       section_headings_mapping ATTENDANCE_CONFIG_of_tracker
         (hd ([[''2. Participants''], [''x'', ''y''], [''2. Participants'', ''again''], [''z'']] ! j))
         = Some PARTICIPANTS)"
proof -
  have run: "extract_section_indexes (section_headings_mapping ATTENDANCE_CONFIG_of_tracker)
     [[''2. Participants''], [''x'', ''y''], [''2. Participants'', ''again''], [''z'']]
   = Inr [PARTICIPANTS \<mapsto> 4]"
    by (simp add: extract_section_indexes_def section_index_step_def list_getitem_def
          bind_result_def ATTENDANCE_CONFIG_of_tracker_def eval_nat_numeral)
  from section_indexes_last_match [of "section_headings_mapping ATTENDANCE_CONFIG_of_tracker"
      0 "''2. Participants''" "[]" Map.empty
      "[[''2. Participants''], [''x'', ''y''], [''2. Participants'', ''again''], [''z'']]"
      "[PARTICIPANTS \<mapsto> 4]"] run
  have "([PARTICIPANTS \<mapsto> 4::nat] PARTICIPANTS = Some 4) =
     (\<exists>j < length [[''2. Participants''], [''x'', ''y''], [''2. Participants'', ''again''], [''z'']].
       (4::nat) = j + 2 \<and>
       section_headings_mapping ATTENDANCE_CONFIG_of_tracker
         (hd ([[''2. Participants''], [''x'', ''y''], [''2. Participants'', ''again''], [''z'']] ! j))
         = Some PARTICIPANTS \<and>
       (\<forall>j' < length [[''2. Participants''], [''x'', ''y''], [''2. Participants'', ''again''], [''z'']].
          j < j' \<longrightarrow>
          section_headings_mapping ATTENDANCE_CONFIG_of_tracker
            (hd ([[''2. Participants''], [''x'', ''y''], [''2. Participants'', ''again''], [''z'']] ! j'))
            \<noteq> Some PARTICIPANTS))"
    by blast
  then show ?thesis using run by auto
qed

text \<open>
  Claim C10.  The scan reads \<open>record[0]\<close> of every row with no guard: it returns when every
  row has at least one field, and raises \<open>IndexError\<close> when some row has no field.
\<close>

theorem section_scan_total:
  "((\<forall>r \<in> set rows. r \<noteq> []) \<longrightarrow> (\<exists>offs. extract_section_indexes mp rows = Inr offs)) \<and>
   ([] \<in> set rows \<longrightarrow> extract_section_indexes mp rows = Inl IndexError)"
  using section_index_loop_total [of rows mp 0 Map.empty]
    section_index_loop_fails [of rows mp 0 Map.empty]
  by (simp add: extract_section_indexes_def)

text \<open>
  Two rows with fields are scanned; a blank row between two rows with fields is an error.
\<close>

theorem section_scan_total_witness:
  "[''Start time''] \<noteq> [] \<and> [''a'', ''b''] \<noteq> [] \<and>
   (\<exists>offs. extract_section_indexes (section_headings_mapping ATTENDANCE_CONFIG_of_tracker)
            [[''Start time''], [''a'', ''b'']] = Inr offs) \<and>
   [] \<in> set [[''a'', ''b''], [], [''Start time'']] \<and>
   extract_section_indexes (section_headings_mapping ATTENDANCE_CONFIG_of_tracker)
     [[''a'', ''b''], [], [''Start time'']] = Inl IndexError"
  using section_scan_total [of "[[''Start time''], [''a'', ''b'']]"
          "section_headings_mapping ATTENDANCE_CONFIG_of_tracker"]
        section_scan_total [of "[[''a'', ''b''], [], [''Start time'']]"
          "section_headings_mapping ATTENDANCE_CONFIG_of_tracker"]
  by simp

text \<open>
  Claim C6 says that \<open>participants\<close> and \<open>in_meeting_activities\<close> decode the rows of their
  ranges.  The code does not: for a file with one participant and one activity the
  constructor raises \<open>ValueError\<close>, because the scan reads a file that \<open>_init_csv_reader\<close> has
  closed; and on a reader that holds the indexes 2, 6 and 10, which the scan of these rows
  gives, both accessors raise \<open>TypeError\<close> at \<open>self._csv_reader[index]\<close>, where the claim has
  the participant of row 2 and the activity of row 6.  Only an empty range returns, with
  the empty list (lemmas \<open>extract_participants_eq\<close> and
  \<open>extract_in_meeting_activities_eq\<close>).
\<close>

theorem participants_accessor_raises:
  "AttendanceReader_init
     [[''2. Participants''], [''Name''],
      [''Ann'', ''t1'', ''t2'', ''10m'', ''ann@x'', ''id1'', ''Attendee''],
      [''-''], [''3. In-Meeting Activities''], [''Name''],
      [''Ann'', ''t1'', ''t2'', ''10m'', ''ann@x'', ''Attendee''],
      [''-''], [''4. Explicit Audio and Video Consent Information'']]
     ATTENDANCE_CONFIG_of_tracker = Inl ValueError \<and>
   extract_section_indexes (section_headings_mapping ATTENDANCE_CONFIG_of_tracker)
     [[''2. Participants''], [''Name''],
      [''Ann'', ''t1'', ''t2'', ''10m'', ''ann@x'', ''id1'', ''Attendee''],
      [''-''], [''3. In-Meeting Activities''], [''Name''],
      [''Ann'', ''t1'', ''t2'', ''10m'', ''ann@x'', ''Attendee''],
      [''-''], [''4. Explicit Audio and Video Consent Information'']]
   = Inr [PARTICIPANTS \<mapsto> 2, MEETING_ACTIVITIES \<mapsto> 6, VIDEO_AND_AUDIO_CONSENT \<mapsto> 10] \<and>
   extract_participants (\<lambda>str fmt. if str = ''t1'' then Some 100 else
                                        if str = ''t2'' then Some 200 else None)
     \<lparr>ATTENDANCE_CONFIG = ATTENDANCE_CONFIG_of_tracker,
      csv_reader = init_csv_reader
        [[''2. Participants''], [''Name''],
         [''Ann'', ''t1'', ''t2'', ''10m'', ''ann@x'', ''id1'', ''Attendee''],
         [''-''], [''3. In-Meeting Activities''], [''Name''],
         [''Ann'', ''t1'', ''t2'', ''10m'', ''ann@x'', ''Attendee''],
         [''-''], [''4. Explicit Audio and Video Consent Information'']],
      section_indexes = [PARTICIPANTS \<mapsto> 2, MEETING_ACTIVITIES \<mapsto> 6,
                         VIDEO_AND_AUDIO_CONSENT \<mapsto> 10]\<rparr>
   = Inl TypeError \<and>
   extract_in_meeting_activities (\<lambda>str fmt. if str = ''t1'' then Some 100 else
                                        if str = ''t2'' then Some 200 else None)
     \<lparr>ATTENDANCE_CONFIG = ATTENDANCE_CONFIG_of_tracker,
      csv_reader = init_csv_reader
        [[''2. Participants''], [''Name''],
         [''Ann'', ''t1'', ''t2'', ''10m'', ''ann@x'', ''id1'', ''Attendee''],
         [''-''], [''3. In-Meeting Activities''], [''Name''],
         [''Ann'', ''t1'', ''t2'', ''10m'', ''ann@x'', ''Attendee''],
         [''-''], [''4. Explicit Audio and Video Consent Information'']],
      section_indexes = [PARTICIPANTS \<mapsto> 2, MEETING_ACTIVITIES \<mapsto> 6,
                         VIDEO_AND_AUDIO_CONSENT \<mapsto> 10]\<rparr>
   = Inl TypeError"
proof -
  have scan: "extract_section_indexes (section_headings_mapping ATTENDANCE_CONFIG_of_tracker)
     [[''2. Participants''], [''Name''],
      [''Ann'', ''t1'', ''t2'', ''10m'', ''ann@x'', ''id1'', ''Attendee''],
      [''-''], [''3. In-Meeting Activities''], [''Name''],
      [''Ann'', ''t1'', ''t2'', ''10m'', ''ann@x'', ''Attendee''],
      [''-''], [''4. Explicit Audio and Video Consent Information'']]
   = Inr [PARTICIPANTS \<mapsto> 2, MEETING_ACTIVITIES \<mapsto> 6, VIDEO_AND_AUDIO_CONSENT \<mapsto> 10]"
    by (simp add: extract_section_indexes_def section_index_step_def list_getitem_def
          bind_result_def ATTENDANCE_CONFIG_of_tracker_def eval_nat_numeral)
  show ?thesis
    by (simp only: scan AttendanceReader_init_raises)
       (simp add: extract_participants_def extract_in_meeting_activities_def dict_getitem_def
          bind_result_def py_range_def upt_rec [of 2] upt_rec [of 6] csv_reader_getitem_def)
qed

text \<open>
  Claim C7, as stated: when a label is absent from the rows, the scan completes without
  error.  It fails for rows without the heading of the start time that hold a blank row:
  the scan raises \<open>IndexError\<close>.
\<close>

theorem missing_section_blank_row_counterexample:
  "section_headings_mapping ATTENDANCE_CONFIG_of_tracker ''2. Participants'' \<noteq> Some START_TIME \<and>
   section_headings_mapping ATTENDANCE_CONFIG_of_tracker ''x'' \<noteq> Some START_TIME \<and>
   extract_section_indexes (section_headings_mapping ATTENDANCE_CONFIG_of_tracker)
     [[''2. Participants''], [], [''x'']] = Inl IndexError"
  by (simp add: extract_section_indexes_def section_index_step_def list_getitem_def
        bind_result_def ATTENDANCE_CONFIG_of_tracker_def)

text \<open>
  Claim C7, amended: the scan of the rows never raises \<open>KeyError\<close>; when every row has a
  first field and no row maps to a label, the scan returns and stores nothing under the
  label.  On a reader with nothing stored under a label, the accessors that read the
  label's index raise \<open>KeyError\<close>: \<open>start_time\<close> for \<open>START_TIME\<close>, \<open>participants\<close> for
  \<open>PARTICIPANTS\<close> and \<open>MEETING_ACTIVITIES\<close>, \<open>in_meeting_activities\<close> for \<open>MEETING_ACTIVITIES\<close>
  and \<open>VIDEO_AND_AUDIO_CONSENT\<close>.  An accessor raises \<open>KeyError\<close> only when one of the labels
  it reads has no index.
\<close>

theorem missing_section_at_accessor:
  "extract_section_indexes mp rows \<noteq> Inl KeyError \<and>
   ((\<forall>r \<in> set rows. r \<noteq> [] \<and> mp (hd r) \<noteq> Some l) \<longrightarrow>
      (\<exists>offs. extract_section_indexes mp rows = Inr offs \<and> offs l = None)) \<and>
   (section_indexes self l = None \<longrightarrow>
      (l = START_TIME \<longrightarrow> extract_start_time strptime self = Inl KeyError) \<and>
      (l = PARTICIPANTS \<or> l = MEETING_ACTIVITIES \<longrightarrow>
         extract_participants strptime self = Inl KeyError) \<and>
      (l = MEETING_ACTIVITIES \<or> l = VIDEO_AND_AUDIO_CONSENT \<longrightarrow>
         extract_in_meeting_activities strptime self = Inl KeyError)) \<and>
   (extract_start_time strptime self = Inl KeyError \<longrightarrow>
      section_indexes self START_TIME = None) \<and>
   (extract_participants strptime self = Inl KeyError \<longrightarrow>
      section_indexes self PARTICIPANTS = None \<or>
      section_indexes self MEETING_ACTIVITIES = None) \<and>
   (extract_in_meeting_activities strptime self = Inl KeyError \<longrightarrow>
      section_indexes self MEETING_ACTIVITIES = None \<or>
      section_indexes self VIDEO_AND_AUDIO_CONSENT = None)"
proof -
  have no_key: "extract_section_indexes mp rows \<noteq> Inl KeyError"
    using section_index_loop_error [of mp 0 rows Map.empty KeyError]
    by (auto simp add: extract_section_indexes_def)
  have absent: "\<exists>offs. extract_section_indexes mp rows = Inr offs \<and> offs l = None"
    if "\<forall>r \<in> set rows. r \<noteq> [] \<and> mp (hd r) \<noteq> Some l"
  proof -
    from that obtain offs where offs: "section_index_loop mp 0 rows Map.empty = Inr offs"
      using section_index_loop_total [of rows mp 0 Map.empty] by auto
    from section_index_loop_absent [OF offs, of l] that have "offs l = None" by simp
    with offs show ?thesis by (simp add: extract_section_indexes_def)
  qed
  have acc: "(section_indexes self l = None \<longrightarrow>
      (l = START_TIME \<longrightarrow> extract_start_time strptime self = Inl KeyError) \<and>
      (l = PARTICIPANTS \<or> l = MEETING_ACTIVITIES \<longrightarrow>
         extract_participants strptime self = Inl KeyError) \<and>
      (l = MEETING_ACTIVITIES \<or> l = VIDEO_AND_AUDIO_CONSENT \<longrightarrow>
         extract_in_meeting_activities strptime self = Inl KeyError))"
    by (auto simp add: extract_start_time_eq extract_participants_eq
          extract_in_meeting_activities_eq split: option.split)
  have only: "(extract_start_time strptime self = Inl KeyError \<longrightarrow>
      section_indexes self START_TIME = None)"
    "(extract_participants strptime self = Inl KeyError \<longrightarrow>
      section_indexes self PARTICIPANTS = None \<or>
      section_indexes self MEETING_ACTIVITIES = None)"
    "(extract_in_meeting_activities strptime self = Inl KeyError \<longrightarrow>
      section_indexes self MEETING_ACTIVITIES = None \<or>
      section_indexes self VIDEO_AND_AUDIO_CONSENT = None)"
    by (auto simp add: extract_start_time_eq extract_participants_eq
          extract_in_meeting_activities_eq split: option.splits if_splits)
  show ?thesis
    using no_key absent acc only by blast
qed

text \<open>
  Rows without the heading of the start time: the scan returns, and \<open>start_time\<close> on a
  reader with the indexes of that scan raises \<open>KeyError\<close>.
\<close>

theorem missing_section_at_accessor_witness:
  "[''2. Participants''] \<noteq> [] \<and> [''x''] \<noteq> [] \<and>
   section_headings_mapping ATTENDANCE_CONFIG_of_tracker ''2. Participants'' \<noteq> Some START_TIME \<and>
   section_headings_mapping ATTENDANCE_CONFIG_of_tracker ''x'' \<noteq> Some START_TIME \<and>
   (\<exists>offs. extract_section_indexes (section_headings_mapping ATTENDANCE_CONFIG_of_tracker)
             [[''2. Participants''], [''x'']] = Inr offs \<and> offs START_TIME = None) \<and>
   section_indexes
     \<lparr>ATTENDANCE_CONFIG = ATTENDANCE_CONFIG_of_tracker,
      csv_reader = init_csv_reader [[''2. Participants''], [''x'']],
      section_indexes = [PARTICIPANTS \<mapsto> 2]\<rparr> START_TIME = None \<and>
   extract_start_time (\<lambda>str fmt. None)
     \<lparr>ATTENDANCE_CONFIG = ATTENDANCE_CONFIG_of_tracker,
      csv_reader = init_csv_reader [[''2. Participants''], [''x'']],
      section_indexes = [PARTICIPANTS \<mapsto> 2]\<rparr> = Inl KeyError"
  using missing_section_at_accessor [of
          "section_headings_mapping ATTENDANCE_CONFIG_of_tracker"
          "[[''2. Participants''], [''x'']]" START_TIME
          "\<lparr>ATTENDANCE_CONFIG = ATTENDANCE_CONFIG_of_tracker,
            csv_reader = init_csv_reader [[''2. Participants''], [''x'']],
            section_indexes = [PARTICIPANTS \<mapsto> 2]\<rparr>" "\<lambda>str fmt. None"]
  by (auto simp add: ATTENDANCE_CONFIG_of_tracker_def)



end
